theory Spec2Isabelle
  imports Main "HOL-Library.Word" "HOL-Library.AList"
begin

unbundle bit_operations_syntax

section \<open>Bytes, buffers and errors\<close>

text \<open>
  A Node.js \<open>Buffer\<close> is a list of bytes. JavaScript numbers are modelled as \<open>int\<close>: the
  cursor of the parser, offsets and byte counts are plain numbers in the source, so they can be
  negative or exceed the buffer length, and the model keeps that freedom.

  Every assertion failure and every range error of the source is a value of \<open>error\<close>; the
  constructor names follow the taxonomy of the specification, the comment gives the source's
  message. The methods of \<open>Buffer\<close> that the source calls are written as the documentation of
  Node.js describes them.
\<close>

type_synonym u8 = "8 word"
type_synonym buffer = "u8 list"

datatype error =
    OutOfBounds          \<comment> \<open>RangeError of \<open>Buffer.readUInt32LE\<close>, \<open>readUInt16LE\<close>, \<open>copy\<close>\<close>
  | InsufficientData     \<comment> \<open>'Insufficient bytes'\<close>
  | InvalidOffset        \<comment> \<open>'Invalid offset'\<close>
  | BadSignature         \<comment> \<open>'Invalid file signature (bad magic)'\<close>
  | UnsupportedVersion   \<comment> \<open>'Unsupported file version'\<close>
  | InvalidHeader        \<comment> \<open>'Invalid value of field `OtherMD5SectionSize`'\<close>
  | BadEntryTerminator   \<comment> \<open>'Bad entry terminator'\<close>
  | FileNotFound         \<comment> \<open>'File ... not found'\<close>
  | OpenFailed           \<comment> \<open>\<open>fs.open\<close> rejected\<close>
  | ReadFailed           \<comment> \<open>\<open>fs.read\<close> rejected\<close>
  | ShortRead            \<comment> \<open>'Cannot read file from sub-archive ...'\<close>
  | ValidationFailed     \<comment> \<open>'Validation failed'\<close>
  | CloseFailed          \<comment> \<open>\<open>fs.close\<close> failed on the descriptor\<close>
  | InvalidCallback      \<comment> \<open>TypeError of \<open>fs.close\<close>: the callback is not a function\<close>

text \<open>\<open>data[i]\<close>: the byte at index \<open>i\<close>, \<open>undefined\<close> (here \<open>None\<close>) outside the buffer.\<close>

definition Buffer_at :: "buffer \<Rightarrow> int \<Rightarrow> u8 option" where
  "Buffer_at b i = (if 0 \<le> i \<and> i < int (length b) then Some (b ! nat i) else None)"

text \<open>JavaScript truthiness of \<open>data[i]\<close>: \<open>undefined\<close> and \<open>0\<close> are falsy.\<close>

definition truthy :: "u8 option \<Rightarrow> bool" where
  "truthy v = (case v of None \<Rightarrow> False | Some x \<Rightarrow> x \<noteq> 0)"

text \<open>\<open>buf.readUInt16LE(offset)\<close> and \<open>buf.readUInt32LE(offset)\<close>: a range error unless the
  whole field lies inside the buffer.\<close>

definition Buffer_readUInt16LE :: "buffer \<Rightarrow> int \<Rightarrow> error + int" where
  "Buffer_readUInt16LE b off =
     (if 0 \<le> off \<and> off + 2 \<le> int (length b)
      then Inr (uint (b ! nat off) + uint (b ! nat (off + 1)) * 2 ^ 8)
      else Inl OutOfBounds)"

definition Buffer_readUInt32LE :: "buffer \<Rightarrow> int \<Rightarrow> error + int" where
  "Buffer_readUInt32LE b off =
     (if 0 \<le> off \<and> off + 4 \<le> int (length b)
      then Inr (uint (b ! nat off) + uint (b ! nat (off + 1)) * 2 ^ 8
                + uint (b ! nat (off + 2)) * 2 ^ 16 + uint (b ! nat (off + 3)) * 2 ^ 24)
      else Inl OutOfBounds)"

text \<open>Decoding with the \<open>'ascii'\<close> encoding clears the highest bit of every byte.\<close>

definition ascii_char :: "u8 \<Rightarrow> char" where
  "ascii_char b = char_of (uint (b AND 0x7F))"

text \<open>\<open>buf.toString('ascii', start, end)\<close>: a negative start counts as 0, an end beyond the
  buffer as its length, and an empty or inverted range gives the empty string.\<close>

definition Buffer_toString_ascii :: "buffer \<Rightarrow> int \<Rightarrow> int \<Rightarrow> string" where
  "Buffer_toString_ascii b start en =
     (let s = max 0 start; e = min en (int (length b))
      in if int (length b) \<le> s \<or> e \<le> s then []
         else map ascii_char (take (nat (e - s)) (drop (nat s) b)))"

text \<open>\<open>buf.subarray(start, end)\<close>: a negative index counts from the end of the buffer, and
  both indices are clamped to the buffer.\<close>

definition clamp_index :: "buffer \<Rightarrow> int \<Rightarrow> nat" where
  "clamp_index b i = (if i < 0 then nat (max 0 (int (length b) + i)) else min (nat i) (length b))"

definition Buffer_subarray :: "buffer \<Rightarrow> int \<Rightarrow> int \<Rightarrow> buffer" where
  "Buffer_subarray b start en =
     take (clamp_index b en - clamp_index b start) (drop (clamp_index b start) b)"

section \<open>Data model\<close>

text \<open>
  The interface \<open>VPKEntryMeta\<close> and the fields of the classes \<open>VPKFile\<close> and
  \<open>BinaryParser\<close>. The four section sizes of a \<open>VPKFile\<close> are assigned for version 2 only
  and stay \<open>undefined\<close> (\<open>None\<close>) otherwise; \<open>preload\<close> is an optional field. The table
  \<open>entries\<close> is only looked up and updated by key, hence a map; \<open>fdCache\<close> is enumerated by
  \<open>closeSubArchives\<close>, hence an association list in insertion order.
\<close>

record VPKEntryMeta =
  extension :: string
  folder :: string
  fileName :: string
  path :: string
  CRC :: int
  preloadBytes :: int
  preload :: "buffer option"
  archiveIndex :: int
  entryOffset :: int
  entryLength :: int

record VPKFile =
  version :: int
  fileDataSectionSize :: "int option"
  archiveMD5SectionSize :: "int option"
  otherMD5SectionSize :: "int option"
  signatureSectionSize :: "int option"
  path :: string
  entries :: "string \<rightharpoonup> VPKEntryMeta"
  data :: buffer
  fdCache :: "(int \<times> nat) list"

datatype SeekMode = Absolute | Relative

record BinaryParser =
  data :: buffer
  cursor :: int

section \<open>BinaryParser\<close>

text \<open>
  Every method returns its result together with the parser after the call, also when it throws:
  the integer reads move the cursor before \<open>Buffer\<close> checks the range. An optional argument
  that is absent is \<open>None\<close>. The generator \<open>asIterator\<close> is left out; no property below
  is about it.
\<close>

definition readUInt32LE :: "BinaryParser \<Rightarrow> int option \<Rightarrow> (error + int) \<times> BinaryParser" where
  "readUInt32LE p offset =
     (case offset of
        Some off \<Rightarrow> (Buffer_readUInt32LE (data p) off, p)
      | None \<Rightarrow>
          (let off = cursor p; p' = p\<lparr>cursor := cursor p + 4\<rparr>
           in (Buffer_readUInt32LE (data p') off, p')))"

definition readUInt16LE :: "BinaryParser \<Rightarrow> int option \<Rightarrow> (error + int) \<times> BinaryParser" where
  "readUInt16LE p offset =
     (case offset of
        Some off \<Rightarrow> (Buffer_readUInt16LE (data p) off, p)
      | None \<Rightarrow>
          (let off = cursor p; p' = p\<lparr>cursor := cursor p + 2\<rparr>
           in (Buffer_readUInt16LE (data p') off, p')))"

text \<open>The loop \<open>while(end < length && data[end]) end++\<close> of \<open>readString\<close>.\<close>

function scan_string :: "buffer \<Rightarrow> int \<Rightarrow> int" where
  "scan_string d e =
     (if e < int (length d) \<and> truthy (Buffer_at d e) then scan_string d (e + 1) else e)"
  by pat_completeness auto
termination
  by (relation "measure (\<lambda>(d, e). nat (int (length d) - e))") auto

declare scan_string.simps [simp del]

text \<open>In \<open>end + !data[end]\<close> the negation is a boolean used as a number: 1 when \<open>data[end]\<close> is
  0 or \<open>undefined\<close>, 0 otherwise.\<close>

definition readString :: "BinaryParser \<Rightarrow> int option \<Rightarrow> string \<times> BinaryParser" where
  "readString p offset =
     (case offset of
        Some off \<Rightarrow>
          (let e = scan_string (data p) off
           in (Buffer_toString_ascii (data p) off e, p))
      | None \<Rightarrow>
          (let off = cursor p;
               e = scan_string (data p) off;
               p' = p\<lparr>cursor := e + of_bool (\<not> truthy (Buffer_at (data p) e))\<rparr>
           in (Buffer_toString_ascii (data p) off e, p')))"

definition readBytes :: "BinaryParser \<Rightarrow> int \<Rightarrow> (error + buffer) \<times> BinaryParser" where
  "readBytes p bytes =
     (if cursor p + bytes \<le> int (length (data p))
      then (let start = cursor p; p' = p\<lparr>cursor := cursor p + bytes\<rparr>
            in (Inr (Buffer_subarray (data p) start (cursor p')), p'))
      else (Inl InsufficientData, p))"


definition seek :: "BinaryParser \<Rightarrow> int option \<Rightarrow> SeekMode \<Rightarrow> (error + int) \<times> BinaryParser" where
  "seek p offset mode =
     (let len = int (length (data p))
      in case offset of
           None \<Rightarrow> (Inr (cursor p), p)
         | Some off \<Rightarrow>
             (case mode of
                Absolute \<Rightarrow>
                  (if 0 < off \<and> off \<le> len then (Inr off, p\<lparr>cursor := off\<rparr>)
                   else (Inl InvalidOffset, p))
              | Relative \<Rightarrow>
                  (let res = cursor p + off
                   in if 0 < res \<and> res \<le> len then (Inr res, p\<lparr>cursor := res\<rparr>)
                      else (Inl InvalidOffset, p))))"

definition eof :: "BinaryParser \<Rightarrow> bool" where
  "eof p = (int (length (data p)) \<le> cursor p)"

section \<open>VPKFile: loading the directory\<close>

definition SIGNATURE :: int where
  "SIGNATURE = 0x55aa1234"

definition HEADER_SIZE_V1 :: int where
  "HEADER_SIZE_V1 = 3 * 4"

definition HEADER_SIZE_V2 :: int where
  "HEADER_SIZE_V2 = 7 * 4"

text \<open>
  The body of the innermost loop after a non-empty \<open>fileName\<close>: the path, the five fields, the
  terminator and the preload bytes. A read that throws ends the whole load, so each step
  continues only on \<open>Inr\<close>.
\<close>

definition read_entry ::
  "string \<Rightarrow> string \<Rightarrow> string \<Rightarrow> BinaryParser \<Rightarrow> (error + VPKEntryMeta) \<times> BinaryParser" where
  "read_entry ext fld fname p0 =
     (let pth = fld @ ''/'' @ fname @ ''.'' @ ext in
      case readUInt32LE p0 None of (Inl e, p1) \<Rightarrow> (Inl e, p1) | (Inr crc, p1) \<Rightarrow>
      case readUInt16LE p1 None of (Inl e, p2) \<Rightarrow> (Inl e, p2) | (Inr pb, p2) \<Rightarrow>
      case readUInt16LE p2 None of (Inl e, p3) \<Rightarrow> (Inl e, p3) | (Inr ai, p3) \<Rightarrow>
      case readUInt32LE p3 None of (Inl e, p4) \<Rightarrow> (Inl e, p4) | (Inr eo, p4) \<Rightarrow>
      case readUInt32LE p4 None of (Inl e, p5) \<Rightarrow> (Inl e, p5) | (Inr el, p5) \<Rightarrow>
      (let node = \<lparr>extension = ext, folder = fld, fileName = fname, VPKEntryMeta.path = pth,
                    CRC = crc, preloadBytes = pb, preload = None, archiveIndex = ai,
                    entryOffset = eo, entryLength = el\<rparr> in
       case readUInt16LE p5 None of (Inl e, p6) \<Rightarrow> (Inl e, p6) | (Inr terminator, p6) \<Rightarrow>
       if terminator \<noteq> 0xffff then (Inl BadEntryTerminator, p6)
       else if pb \<noteq> 0 then
         (case readBytes p6 pb of
            (Inl e, p7) \<Rightarrow> (Inl e, p7)
          | (Inr bytes, p7) \<Rightarrow> (Inr (node\<lparr>preload := Some bytes\<rparr>), p7))
       else (Inr node, p6)))"

text \<open>
  The three nested \<open>while(true)\<close> loops of the tree. A \<open>break\<close> continues the enclosing
  loop, the \<open>break\<close> of the outermost loop leaves the tree; an empty string is falsy.
\<close>

function extension_loop ::
    "BinaryParser \<Rightarrow> (string \<rightharpoonup> VPKEntryMeta) \<Rightarrow> error + BinaryParser \<times> (string \<rightharpoonup> VPKEntryMeta)"
  and folder_loop ::
    "string \<Rightarrow> BinaryParser \<Rightarrow> (string \<rightharpoonup> VPKEntryMeta)
      \<Rightarrow> error + BinaryParser \<times> (string \<rightharpoonup> VPKEntryMeta)"
  and fileName_loop ::
    "string \<Rightarrow> string \<Rightarrow> BinaryParser \<Rightarrow> (string \<rightharpoonup> VPKEntryMeta)
      \<Rightarrow> error + BinaryParser \<times> (string \<rightharpoonup> VPKEntryMeta)"
where
  "extension_loop p es =
     (case readString p None of
        (ext, p') \<Rightarrow> if ext = [] then Inr (p', es) else folder_loop ext p' es)"
| "folder_loop ext p es =
     (case readString p None of
        (fld, p') \<Rightarrow> if fld = [] then extension_loop p' es else fileName_loop ext fld p' es)"
| "fileName_loop ext fld p es =
     (case readString p None of
        (fname, p') \<Rightarrow>
          if fname = [] then folder_loop ext p' es
          else (case read_entry ext fld fname p' of
                  (Inl e, p'') \<Rightarrow> Inl e
                | (Inr node, p'') \<Rightarrow>
                    fileName_loop ext fld p'' (es(VPKEntryMeta.path node \<mapsto> node))))"
  by pat_completeness auto

termination
proof -
  have scan_ge: "e \<le> scan_string d e" for d e
    by (induction d e rule: scan_string.induct) (subst scan_string.simps, auto)
  have scan_stop: "\<not> truthy (Buffer_at d (scan_string d e))" for d e
    by (induction d e rule: scan_string.induct)
      (subst scan_string.simps, auto simp: Buffer_at_def truthy_def)
  have str: "data p' = data p \<and> cursor p < cursor p'
      \<and> (s \<noteq> [] \<longrightarrow> cursor p < int (length (data p)))"
    if "readString p None = (s, p')" for p p' s
    using that scan_ge [of "cursor p" "data p"] scan_stop [of "data p" "cursor p"]
    by (auto simp: readString_def Let_def Buffer_toString_ascii_def split: if_splits)
  have u16: "data p' = data p \<and> cursor p \<le> cursor p' \<and> 0 \<le> v"
    if "readUInt16LE p None = (Inr v, p')" for p p' v
    using that by (auto simp: readUInt16LE_def Let_def Buffer_readUInt16LE_def split: if_splits)
  have u32: "data p' = data p \<and> cursor p \<le> cursor p'"
    if "readUInt32LE p None = (Inr v, p')" for p p' v
    using that by (auto simp: readUInt32LE_def Let_def Buffer_readUInt32LE_def split: if_splits)
  have bytes: "data p' = data p \<and> cursor p \<le> cursor p'"
    if "readBytes p n = (Inr v, p')" "0 \<le> n" for p p' v n
    using that by (auto simp: readBytes_def Let_def split: if_splits)
  have entry: "data p' = data p \<and> cursor p \<le> cursor p'"
    if "read_entry ext fld fname p = (Inr node, p')" for ext fld fname p p' node
    using that unfolding read_entry_def Let_def
    by (auto split: prod.splits sum.splits if_splits dest!: u16 u32 dest: bytes)
  show ?thesis
  proof (relation "measure (\<lambda>x. case x of
            Inl (p, es) \<Rightarrow> 3 * nat (int (length (data p)) + 1 - cursor p)
          | Inr (Inl (ext, p, es)) \<Rightarrow> 3 * nat (int (length (data p)) + 1 - cursor p) + 1
          | Inr (Inr (ext, fld, p, es)) \<Rightarrow> 3 * nat (int (length (data p)) + 1 - cursor p) + 2)",
      goal_cases)
    case 1
    show ?case by simp
  next
    case (2 p es x1 x2)
    with str [of p x1 x2] show ?case by auto
  next
    case (3 ext p es x1 x2)
    with str [of p x1 x2] show ?case by auto
  next
    case (4 ext p es x1 x2)
    with str [of p x1 x2] show ?case by auto
  next
    case (5 ext fld p es x1 x2)
    with str [of p x1 x2] show ?case by auto
  next
    case (6 ext fld p es x1 x2 x y x2a)
    with str [of p x1 x2] entry [of ext fld x1 x2 x2a y] show ?case by auto
  qed
qed

declare extension_loop.simps [simp del] folder_loop.simps [simp del] fileName_loop.simps [simp del]

text \<open>
  \<open>fromFile\<close>, given the bytes that reading the directory file returned. The version 2 header
  has four more fields; \<open>dataOffset\<close> is computed from \<open>treeSize\<close> before the tree is read,
  and \<open>data.subarray(dataOffset)\<close> runs to the end of the buffer.
\<close>

definition read_header_v2 ::
  "BinaryParser \<Rightarrow> (error + int \<times> int \<times> int \<times> int) \<times> BinaryParser" where
  "read_header_v2 p0 =
     (case readUInt32LE p0 None of (Inl e, p1) \<Rightarrow> (Inl e, p1) | (Inr fdSize, p1) \<Rightarrow>
      case readUInt32LE p1 None of (Inl e, p2) \<Rightarrow> (Inl e, p2) | (Inr amSize, p2) \<Rightarrow>
      case readUInt32LE p2 None of (Inl e, p3) \<Rightarrow> (Inl e, p3) | (Inr omSize, p3) \<Rightarrow>
      if omSize \<noteq> 48 then (Inl InvalidHeader, p3) else
      case readUInt32LE p3 None of (Inl e, p4) \<Rightarrow> (Inl e, p4) | (Inr sigSize, p4) \<Rightarrow>
      (Inr (fdSize, amSize, omSize, sigSize), p4))"

definition load_tree ::
  "VPKFile \<Rightarrow> buffer \<Rightarrow> int \<Rightarrow> BinaryParser \<Rightarrow> error + VPKFile" where
  "load_tree file bytes dataOffset p =
     (case extension_loop p (entries file) of
        Inl e \<Rightarrow> Inl e
      | Inr (p', es) \<Rightarrow>
          Inr (file\<lparr>entries := es,
                    VPKFile.data := Buffer_subarray bytes dataOffset (int (length bytes))\<rparr>))"

definition fromFile :: "string \<Rightarrow> buffer \<Rightarrow> error + VPKFile" where
  "fromFile pth bytes =
     (let file = \<lparr>version = 0, fileDataSectionSize = None, archiveMD5SectionSize = None,
                   otherMD5SectionSize = None, signatureSectionSize = None, VPKFile.path = pth,
                   entries = Map.empty, VPKFile.data = [], fdCache = []\<rparr>;
          parser = \<lparr>data = bytes, cursor = 0\<rparr> in
      case readUInt32LE parser None of (Inl e, p1) \<Rightarrow> Inl e | (Inr signature, p1) \<Rightarrow>
      if signature \<noteq> SIGNATURE then Inl BadSignature else
      case readUInt32LE p1 None of (Inl e, p2) \<Rightarrow> Inl e | (Inr ver, p2) \<Rightarrow>
      if \<not> (ver = 1 \<or> ver = 2) then Inl UnsupportedVersion else
      case readUInt32LE p2 None of (Inl e, p3) \<Rightarrow> Inl e | (Inr treeSize, p3) \<Rightarrow>
      if ver = 2 then
        (case read_header_v2 p3 of
           (Inl e, p4) \<Rightarrow> Inl e
         | (Inr (fdSize, amSize, omSize, sigSize), p4) \<Rightarrow>
             load_tree
               (file\<lparr>version := ver, fileDataSectionSize := Some fdSize,
                      archiveMD5SectionSize := Some amSize, otherMD5SectionSize := Some omSize,
                      signatureSectionSize := Some sigSize\<rparr>)
               bytes (HEADER_SIZE_V2 + treeSize) p4)
      else load_tree (file\<lparr>version := ver\<rparr>) bytes (HEADER_SIZE_V1 + treeSize) p3)"

section \<open>The host: files and descriptors\<close>

text \<open>
  \<open>fs.open\<close>, \<open>fs.read\<close> and \<open>fs.close\<close> belong to the host, not to the repository. The
  model keeps what \<open>readFile\<close> and \<open>closeSubArchives\<close> can observe: the files by path, the
  open descriptors with the path each was opened on, and a counter that makes every opened
  descriptor a new one. Opening a missing file, and reading or closing a descriptor that is not
  open, fail. \<open>fs.read\<close> returns as many bytes as the file holds from the position on, at most
  the requested length, and stores them in the buffer at the given offset.
\<close>

record Host =
  files :: "string \<rightharpoonup> buffer"
  fds :: "(nat \<times> string) list"
  next_fd :: nat

definition host_open :: "Host \<Rightarrow> string \<Rightarrow> (error + nat) \<times> Host" where
  "host_open h pth =
     (case files h pth of
        None \<Rightarrow> (Inl OpenFailed, h)
      | Some content \<Rightarrow>
          (Inr (next_fd h), h\<lparr>fds := fds h @ [(next_fd h, pth)], next_fd := Suc (next_fd h)\<rparr>))"

definition write_bytes :: "buffer \<Rightarrow> nat \<Rightarrow> buffer \<Rightarrow> buffer" where
  "write_bytes target at src =
     take at target @ take (length target - at) src @ drop (at + length src) target"

definition host_read ::
  "Host \<Rightarrow> nat \<Rightarrow> buffer \<Rightarrow> int \<Rightarrow> int \<Rightarrow> int \<Rightarrow> error + nat \<times> buffer" where
  "host_read h fd buff offset len position =
     (case map_of (fds h) fd of
        None \<Rightarrow> Inl ReadFailed
      | Some pth \<Rightarrow>
          (case files h pth of
             None \<Rightarrow> Inl ReadFailed
           | Some content \<Rightarrow>
               (let chunk = take (nat len) (drop (nat position) content)
                in Inr (length chunk, write_bytes buff (nat offset) chunk))))"

definition host_close :: "Host \<Rightarrow> nat \<Rightarrow> (error + unit) \<times> Host" where
  "host_close h fd =
     (case map_of (fds h) fd of
        None \<Rightarrow> (Inl CloseFailed, h)
      | Some pth \<Rightarrow> (Inr (), h\<lparr>fds := AList.delete fd (fds h)\<rparr>))"

text \<open>
  \<open>fs.close(fd, callback)\<close> takes its callback as the second argument and throws a type
  error, before it touches the descriptor, when that argument is not a function. The values
  that can stand there in this program are a number, an array of descriptors, and the callback
  that \<open>promisify\<close> supplies.

  \<open>close\<close> is \<open>promisify(fs.close)\<close> of line 8: called with arguments, it calls \<open>fs.close\<close>
  with the same arguments followed by its own callback, and rejects when \<open>fs.close\<close> throws
  or fails. Its first argument is the descriptor, \<open>rest\<close> are the arguments behind it; so
  the callback that \<open>fs.close\<close> sees is the first of \<open>rest\<close>, and the supplied one only when
  \<open>rest\<close> is empty.
\<close>

datatype js_value = JsNumber int | JsArray "nat list" | JsCallback

definition fs_close :: "Host \<Rightarrow> nat \<Rightarrow> js_value \<Rightarrow> (error + unit) \<times> Host" where
  "fs_close h fd callback =
     (case callback of
        JsCallback \<Rightarrow> host_close h fd
      | JsNumber n \<Rightarrow> (Inl InvalidCallback, h)
      | JsArray a \<Rightarrow> (Inl InvalidCallback, h))"

definition close :: "Host \<Rightarrow> nat \<Rightarrow> js_value list \<Rightarrow> (error + unit) \<times> Host" where
  "close h fd rest = fs_close h fd (hd (rest @ [JsCallback]))"

section \<open>VPKFile: reading a file and closing the sub-archives\<close>

text \<open>\<open>Buffer.alloc(n)\<close> is zero-filled; the largest size the host allows is not modelled.\<close>

definition Buffer_alloc :: "int \<Rightarrow> buffer" where
  "Buffer_alloc n = replicate (nat n) 0"

text \<open>
  \<open>source.copy(target, targetStart, sourceStart, sourceEnd)\<close>: the fourth argument is the
  offset in the source at which copying stops, not a length. Offsets out of range are a range
  error; the bytes \<open>sourceStart..sourceEnd\<close> of the source, as far as the source has them and
  the target has room, overwrite the target from \<open>targetStart\<close>.
\<close>

definition Buffer_copy :: "buffer \<Rightarrow> buffer \<Rightarrow> int \<Rightarrow> int \<Rightarrow> int \<Rightarrow> error + buffer" where
  "Buffer_copy source target targetStart sourceStart sourceEnd =
     (if targetStart < 0 \<or> sourceStart < 0 \<or> int (length source) < sourceStart \<or> sourceEnd < 0
      then Inl OutOfBounds
      else if int (length target) \<le> targetStart \<or> sourceEnd \<le> sourceStart then Inr target
      else Inr (write_bytes target (nat targetStart)
                  (take (nat (sourceEnd - sourceStart)) (drop (nat sourceStart) source))))"

text \<open>\<open>path.replace(/\\/g, '/')\<close>.\<close>

definition normalize_path :: "string \<Rightarrow> string" where
  "normalize_path pth = map (\<lambda>c. if c = CHR 0x5C then CHR ''/'' else c) pth"

text \<open>\<open>archiveIndex.toString().padStart(3, '0')\<close> and the replacement of a final
  \<open>_dir.vpk\<close>; a path that does not end so is left as it is.\<close>

fun decimal :: "nat \<Rightarrow> string" where
  "decimal n = (if n < 10 then [char_of (48 + n)] else decimal (n div 10) @ [char_of (48 + n mod 10)])"

declare decimal.simps [simp del]

definition index_suffix :: "int \<Rightarrow> string" where
  "index_suffix i =
     (let s = (if i < 0 then ''-'' @ decimal (nat (- i)) else decimal (nat i))
      in replicate (3 - length s) (CHR ''0'') @ s)"

definition archive_path :: "string \<Rightarrow> int \<Rightarrow> string" where
  "archive_path pth i =
     (let n = length pth - 8
      in if 8 \<le> length pth \<and> drop n pth = ''_dir.vpk''
         then take n pth @ ''_'' @ index_suffix i @ ''.vpk''
         else pth)"

text \<open>
  \<open>readFile\<close>. The checksum function \<open>crc32\<close> comes from a package outside the repository
  and is a parameter. The result is paired with the file object and the host after the call,
  also when the call throws.
\<close>

definition readFile ::
  "(buffer \<Rightarrow> int) \<Rightarrow> VPKFile \<Rightarrow> Host \<Rightarrow> string \<Rightarrow> bool \<Rightarrow> (error + buffer) \<times> VPKFile \<times> Host" where
  "readFile crc32 file host pth0 validate =
     (let pth = normalize_path pth0 in
      case entries file pth of
        None \<Rightarrow> (Inl FileNotFound, file, host)
      | Some m \<Rightarrow>
          (let buff0 = Buffer_alloc (preloadBytes m + entryLength m) in
           case (case preload m of
                   None \<Rightarrow> Inr buff0
                 | Some pre \<Rightarrow> Buffer_copy pre buff0 0 0 (int (length pre))) of
             Inl e \<Rightarrow> (Inl e, file, host)
           | Inr buff1 \<Rightarrow>
               if 0 < entryLength m then
                 if archiveIndex m = 0x7fff then
                   (case Buffer_copy (VPKFile.data file) buff1 (preloadBytes m)
                           (entryOffset m) (entryLength m) of
                      Inl e \<Rightarrow> (Inl e, file, host)
                    | Inr buff \<Rightarrow> (Inr buff, file, host))
                 else
                   (let archivePath = archive_path (VPKFile.path file) (archiveIndex m) in
                    case host_open host archivePath of
                      (Inl e, host') \<Rightarrow> (Inl e, file, host')
                    | (Inr fd, host') \<Rightarrow>
                        (let file' = file\<lparr>fdCache := AList.update (archiveIndex m) fd (fdCache file)\<rparr> in
                         case host_read host' fd buff1 (preloadBytes m) (entryLength m)
                                (entryOffset m) of
                           Inl e \<Rightarrow> (Inl e, file', host')
                         | Inr (bytesRead, buff) \<Rightarrow>
                             if int bytesRead \<noteq> entryLength m then (Inl ShortRead, file', host')
                             else if validate \<and> crc32 buff \<noteq> CRC m
                               then (Inl ValidationFailed, file', host')
                             else (Inr buff, file', host')))
               else (Inr buff1, file, host)))"

text \<open>
  \<open>closeSubArchives\<close>: the cache is copied and cleared, then \<open>[...cache.values()].map(close)\<close>
  calls \<open>close\<close> for every value of the copy before anything is awaited. \<open>Array.map\<close> calls
  its function with the element, its index and the array, so each call is
  \<open>close(fd, index, array)\<close>; \<open>map_close h arr i fds\<close> performs these calls for the elements
  \<open>fds\<close> from the index \<open>i\<close> on. \<open>Promise.all\<close> rejects when a call rejects, and the model
  reports the first failure in the order of the cache.
\<close>

fun map_close ::
  "Host \<Rightarrow> nat list \<Rightarrow> nat \<Rightarrow> nat list \<Rightarrow> (nat \<times> (error + unit)) list \<times> Host" where
  "map_close h arr i [] = ([], h)"
| "map_close h arr i (fd # rest) =
     (case close h fd [JsNumber (int i), JsArray arr] of
        (r, h') \<Rightarrow>
          (case map_close h' arr (Suc i) rest of (rs, h'') \<Rightarrow> ((fd, r) # rs, h'')))"

fun first_failure :: "(nat \<times> (error + unit)) list \<Rightarrow> error + unit" where
  "first_failure [] = Inr ()"
| "first_failure ((fd, Inl e) # rs) = Inl e"
| "first_failure ((fd, Inr u) # rs) = first_failure rs"

definition closeSubArchives :: "VPKFile \<Rightarrow> Host \<Rightarrow> (error + unit) \<times> VPKFile \<times> Host" where
  "closeSubArchives file host =
     (let cache = fdCache file;
          file' = file\<lparr>fdCache := []\<rparr>;
          handles = map snd cache
      in case map_close host handles 0 handles of
           (rs, host') \<Rightarrow> (first_failure rs, file', host'))"

section \<open>Notions of the specification\<close>

text \<open>
  The span that a string read scans, in the specification's words: the bytes from the read
  position up to, and without, the first zero byte or the end of the buffer.
\<close>

definition scanned_span :: "buffer \<Rightarrow> int \<Rightarrow> buffer" where
  "scanned_span d c = (if c < 0 then [] else takeWhile (\<lambda>b. b \<noteq> 0) (drop (nat c) d))"







text \<open>The directory bytes of the specification's first scenario.\<close>

definition empty_dir :: buffer where
  "empty_dir = [0x34, 0x12, 0xAA, 0x55, 0x01, 0, 0, 0, 0, 0, 0, 0, 0x00]"

text \<open>
  Two buffers of the same length that hold the same bytes from the offset \<open>c\<close> on;
  \<open>on_buffer\<close> moves a parser to another buffer at the same cursor, and \<open>without_data\<close>
  forgets the residual data of a loaded directory.
\<close>

definition same_from :: "int \<Rightarrow> buffer \<Rightarrow> buffer \<Rightarrow> bool" where
  "same_from c d1 d2 = (0 \<le> c \<and> length d1 = length d2 \<and> drop (nat c) d1 = drop (nat c) d2)"

definition on_buffer :: "buffer \<Rightarrow> BinaryParser \<Rightarrow> BinaryParser" where
  "on_buffer d2 p = p\<lparr>data := d2\<rparr>"

definition without_data :: "error + VPKFile \<Rightarrow> error + VPKFile" where
  "without_data r = map_sum id (\<lambda>file. file\<lparr>VPKFile.data := []\<rparr>) r"





subsection \<open>Scenarios\<close>

text \<open>
  A version 1 directory with one extension \<open>txt\<close>, one folder \<open>a\<close> and three files: \<open>f\<close>
  in the residual data of the directory file itself (offset 1, length 2), \<open>g\<close> in the
  external archive 3 (offset 1, length 2), and \<open>h\<close> with two preload bytes and no other
  content. The stored checksum of each entry is 0. The tree takes 71 bytes, and four bytes of
  residual data follow it. \<open>sample_file\<close> is the object \<open>fromFile\<close> builds from it, and
  \<open>sample_host\<close> a host that holds the archive \<open>pak_003.vpk\<close> and has no descriptor open.
\<close>

definition sample_dir :: buffer where
  "sample_dir =
     [0x34, 0x12, 0xAA, 0x55, 1, 0, 0, 0, 0x47, 0, 0, 0,
      0x74, 0x78, 0x74, 0, 0x61, 0,
      0x66, 0, 0, 0, 0, 0, 0, 0, 0xFF, 0x7F, 1, 0, 0, 0, 2, 0, 0, 0, 0xFF, 0xFF,
      0x67, 0, 0, 0, 0, 0, 0, 0, 3, 0, 1, 0, 0, 0, 2, 0, 0, 0, 0xFF, 0xFF,
      0x68, 0, 0, 0, 0, 0, 2, 0, 0xFF, 0x7F, 0, 0, 0, 0, 0, 0, 0, 0, 0xFF, 0xFF, 7, 8,
      0, 0, 0,
      10, 20, 30, 40]"

definition sample_f :: VPKEntryMeta where
  "sample_f =
     \<lparr>extension = ''txt'', folder = ''a'', fileName = ''f'', VPKEntryMeta.path = ''a/f.txt'',
      CRC = 0, preloadBytes = 0, preload = None, archiveIndex = 0x7fff,
      entryOffset = 1, entryLength = 2\<rparr>"

definition sample_g :: VPKEntryMeta where
  "sample_g =
     \<lparr>extension = ''txt'', folder = ''a'', fileName = ''g'', VPKEntryMeta.path = ''a/g.txt'',
      CRC = 0, preloadBytes = 0, preload = None, archiveIndex = 3,
      entryOffset = 1, entryLength = 2\<rparr>"

definition sample_h :: VPKEntryMeta where
  "sample_h =
     \<lparr>extension = ''txt'', folder = ''a'', fileName = ''h'', VPKEntryMeta.path = ''a/h.txt'',
      CRC = 0, preloadBytes = 2, preload = Some [7, 8], archiveIndex = 0x7fff,
      entryOffset = 0, entryLength = 0\<rparr>"

definition sample_entries :: "string \<rightharpoonup> VPKEntryMeta" where
  "sample_entries = [''a/f.txt'' \<mapsto> sample_f, ''a/g.txt'' \<mapsto> sample_g, ''a/h.txt'' \<mapsto> sample_h]"

definition sample_file :: VPKFile where
  "sample_file =
     \<lparr>version = 1, fileDataSectionSize = None, archiveMD5SectionSize = None,
      otherMD5SectionSize = None, signatureSectionSize = None, VPKFile.path = ''pak_dir.vpk'',
      entries = sample_entries, VPKFile.data = [10, 20, 30, 40], fdCache = []\<rparr>"

definition sample_host :: Host where
  "sample_host = \<lparr>files = [''pak_003.vpk'' \<mapsto> [1, 2, 3, 4, 5]], fds = [], next_fd = 0\<rparr>"

text \<open>Two reads of the same path, one after the other, without validation.\<close>

definition read_twice ::
  "(buffer \<Rightarrow> int) \<Rightarrow> VPKFile \<Rightarrow> Host \<Rightarrow> string \<Rightarrow> (error + buffer) \<times> VPKFile \<times> Host" where
  "read_twice crc32 file host pth =
     (case readFile crc32 file host pth False of
        (r, file', host') \<Rightarrow> readFile crc32 file' host' pth False)"


section \<open>The string scan\<close>


lemmas tree_simps = extension_loop.simps folder_loop.simps fileName_loop.simps

lemma drop_nat_Cons:
  "0 \<le> e \<Longrightarrow> e < int (length d) \<Longrightarrow> drop (nat e) d = d ! nat e # drop (Suc (nat e)) d"
  by (rule Cons_nth_drop_Suc [symmetric]) (simp add: nat_less_iff)



lemma scan_string_stops: "\<not> truthy (Buffer_at d (scan_string d e))"
  by (induction d e rule: scan_string.induct)
    (subst scan_string.simps, auto simp: Buffer_at_def truthy_def)

lemma scanned_span_Nil: "scanned_span d c = [] \<longleftrightarrow> \<not> truthy (Buffer_at d c)"
proof (cases "0 \<le> c \<and> c < int (length d)")
  case True
  then have "drop (nat c) d = d ! nat c # drop (Suc (nat c)) d"
    by (simp add: drop_nat_Cons)
  with True show ?thesis by (simp add: scanned_span_def Buffer_at_def truthy_def)
next
  case False
  then show ?thesis by (auto simp: scanned_span_def Buffer_at_def truthy_def)
qed

lemma scan_string_span: "scan_string d e = e + int (length (scanned_span d e))"
proof (induction d e rule: scan_string.induct)
  case (1 d e)
  show ?case
  proof (cases "e < int (length d) \<and> truthy (Buffer_at d e)")
    case True
    then have e: "0 \<le> e" "nat e < length d" and nz: "d ! nat e \<noteq> 0"
      by (auto simp: Buffer_at_def truthy_def split: if_splits)
    have "drop (nat e) d = d ! nat e # drop (nat (e + 1)) d"
      using True e by (simp add: drop_nat_Cons nat_add_distrib)
    with nz e have "scanned_span d e = d ! nat e # scanned_span d (e + 1)"
      by (simp add: scanned_span_def)
    with 1 True show ?thesis by (simp add: scan_string.simps [of d e])
  next
    case False
    then have "\<not> truthy (Buffer_at d e)"
      by (auto simp: Buffer_at_def truthy_def)
    then have "scanned_span d e = []"
      by (simp add: scanned_span_Nil)
    moreover from False have "scan_string d e = e"
      by (subst scan_string.simps) auto
    ultimately show ?thesis by simp
  qed
qed

lemma toString_span:
  "Buffer_toString_ascii d c (c + int (length (scanned_span d c))) = map ascii_char (scanned_span d c)"
proof (cases "c < 0 \<or> int (length d) \<le> c")
  case True
  then show ?thesis by (auto simp: Buffer_toString_ascii_def scanned_span_def Let_def)
next
  case False
  let ?xs = "drop (nat c) d"
  let ?n = "length (takeWhile (\<lambda>b. b \<noteq> 0) ?xs)"
  have n: "?n \<le> length ?xs" by (rule length_takeWhile_le)
  have tk: "take ?n ?xs = takeWhile (\<lambda>b. b \<noteq> 0) ?xs"
    by (rule takeWhile_eq_take [symmetric])
  from False n have "c + int ?n \<le> int (length d)" by (simp only: length_drop) linarith
  with False tk show ?thesis
    by (auto simp: Buffer_toString_ascii_def scanned_span_def Let_def min_def max_def)
qed

lemma readString_span:
  "readString p None =
     (map ascii_char (scanned_span (data p) (cursor p)),
      p\<lparr>cursor := cursor p + int (length (scanned_span (data p) (cursor p))) + 1\<rparr>)"
  by (simp add: readString_def Let_def scan_string_span toString_span
      scan_string_stops [of "data p" "cursor p", unfolded scan_string_span])

section \<open>Two buffers that agree from an offset on\<close>

lemma drop_eq_nth:
  assumes "drop n xs = drop n ys" "length xs = length ys" "n \<le> i" "i < length xs"
  shows "xs ! i = ys ! i"
proof -
  have x: "drop n xs ! (i - n) = xs ! (n + (i - n))"
    using assms(3,4) by (intro nth_drop) simp
  have y: "drop n ys ! (i - n) = ys ! (n + (i - n))"
    using assms(2,3,4) by (intro nth_drop) simp
  from x y assms(1,3) show ?thesis by simp
qed

lemma drop_eq_mono:
  assumes "drop n xs = drop n ys" "n \<le> m"
  shows "drop m xs = drop m ys"
proof -
  have "drop m xs = drop (m - n) (drop n xs)" using assms(2) by simp
  also have "\<dots> = drop (m - n) (drop n ys)" by (simp add: assms(1))
  also have "\<dots> = drop m ys" using assms(2) by simp
  finally show ?thesis .
qed

lemma same_from_mono: "same_from c d1 d2 \<Longrightarrow> c \<le> c' \<Longrightarrow> same_from c' d1 d2"
  unfolding same_from_def by (auto intro: drop_eq_mono [of "nat c" d1 d2 "nat c'"])

lemma same_from_nth:
  "same_from c d1 d2 \<Longrightarrow> c \<le> i \<Longrightarrow> i < int (length d1) \<Longrightarrow> d1 ! nat i = d2 ! nat i"
  unfolding same_from_def by (intro drop_eq_nth [of "nat c" d1 d2 "nat i"]) auto

lemma Buffer_readUInt32LE_same:
  assumes "same_from c d1 d2" "c \<le> off"
  shows "Buffer_readUInt32LE d2 off = Buffer_readUInt32LE d1 off"
proof (cases "0 \<le> off \<and> off + 4 \<le> int (length d1)")
  case True
  with assms have "d1 ! nat off = d2 ! nat off" "d1 ! nat (off + 1) = d2 ! nat (off + 1)"
    "d1 ! nat (off + 2) = d2 ! nat (off + 2)" "d1 ! nat (off + 3) = d2 ! nat (off + 3)"
    by (auto intro!: same_from_nth [of c])
  with assms True show ?thesis by (simp add: Buffer_readUInt32LE_def same_from_def)
next
  case False
  with assms show ?thesis by (auto simp: Buffer_readUInt32LE_def same_from_def)
qed

lemma Buffer_readUInt16LE_same:
  assumes "same_from c d1 d2" "c \<le> off"
  shows "Buffer_readUInt16LE d2 off = Buffer_readUInt16LE d1 off"
proof (cases "0 \<le> off \<and> off + 2 \<le> int (length d1)")
  case True
  with assms have "d1 ! nat off = d2 ! nat off" "d1 ! nat (off + 1) = d2 ! nat (off + 1)"
    by (auto intro!: same_from_nth [of c])
  with assms True show ?thesis by (simp add: Buffer_readUInt16LE_def same_from_def)
next
  case False
  with assms show ?thesis by (auto simp: Buffer_readUInt16LE_def same_from_def)
qed

lemma on_buffer_sel: "data (on_buffer d2 p) = d2" "cursor (on_buffer d2 p) = cursor p"
  by (simp_all add: on_buffer_def)

lemma readUInt32LE_same:
  assumes "same_from (cursor p) (data p) d2"
  shows "readUInt32LE (on_buffer d2 p) None
           = (fst (readUInt32LE p None), on_buffer d2 (snd (readUInt32LE p None)))"
    and "same_from (cursor (snd (readUInt32LE p None))) (data (snd (readUInt32LE p None))) d2"
  using assms Buffer_readUInt32LE_same [of "cursor p" "data p" d2 "cursor p"]
    same_from_mono [of "cursor p" "data p" d2 "cursor p + 4"]
  by (simp_all add: readUInt32LE_def on_buffer_def Let_def)

lemma readUInt16LE_same:
  assumes "same_from (cursor p) (data p) d2"
  shows "readUInt16LE (on_buffer d2 p) None
           = (fst (readUInt16LE p None), on_buffer d2 (snd (readUInt16LE p None)))"
    and "same_from (cursor (snd (readUInt16LE p None))) (data (snd (readUInt16LE p None))) d2"
  using assms Buffer_readUInt16LE_same [of "cursor p" "data p" d2 "cursor p"]
    same_from_mono [of "cursor p" "data p" d2 "cursor p + 2"]
  by (simp_all add: readUInt16LE_def on_buffer_def Let_def)

lemma scanned_span_same: "same_from c d1 d2 \<Longrightarrow> scanned_span d2 c = scanned_span d1 c"
  by (simp add: scanned_span_def same_from_def)

lemma readString_same:
  assumes "same_from (cursor p) (data p) d2"
  shows "readString (on_buffer d2 p) None
           = (fst (readString p None), on_buffer d2 (snd (readString p None)))"
    and "same_from (cursor (snd (readString p None))) (data (snd (readString p None))) d2"
  using assms scanned_span_same [of "cursor p" "data p" d2]
    same_from_mono [of "cursor p" "data p" d2
      "cursor p + int (length (scanned_span (data p) (cursor p))) + 1"]
  by (simp_all add: readString_span on_buffer_def)

lemma readBytes_same:
  assumes "same_from (cursor p) (data p) d2" "0 \<le> n"
  shows "readBytes (on_buffer d2 p) n
           = (fst (readBytes p n), on_buffer d2 (snd (readBytes p n)))"
    and "same_from (cursor (snd (readBytes p n))) (data (snd (readBytes p n))) d2"
proof -
  have s: "Buffer_subarray d2 (cursor p) (cursor p + n) = Buffer_subarray (data p) (cursor p) (cursor p + n)"
    if "cursor p + n \<le> int (length (data p))"
  proof -
    from that assms have "clamp_index d2 (cursor p) = nat (cursor p)"
      "clamp_index (data p) (cursor p) = nat (cursor p)"
      "clamp_index d2 (cursor p + n) = clamp_index (data p) (cursor p + n)"
      by (auto simp: clamp_index_def same_from_def)
    with assms show ?thesis by (simp add: Buffer_subarray_def same_from_def)
  qed
  show "readBytes (on_buffer d2 p) n = (fst (readBytes p n), on_buffer d2 (snd (readBytes p n)))"
    using assms s by (auto simp: readBytes_def on_buffer_def Let_def same_from_def)
  show "same_from (cursor (snd (readBytes p n))) (data (snd (readBytes p n))) d2"
    using assms same_from_mono [of "cursor p" "data p" d2 "cursor p + n"]
    by (auto simp: readBytes_def Let_def)
qed


lemma readUInt16LE_nonneg: "readUInt16LE p off = (Inr v, p') \<Longrightarrow> 0 \<le> v"
  by (auto simp: readUInt16LE_def Buffer_readUInt16LE_def Let_def split: option.splits if_splits)

lemma read_entry_same:
  assumes "same_from (cursor p) (data p) d2"
  shows "read_entry ext fld fname (on_buffer d2 p)
           = (fst (read_entry ext fld fname p), on_buffer d2 (snd (read_entry ext fld fname p)))
         \<and> same_from (cursor (snd (read_entry ext fld fname p)))
              (data (snd (read_entry ext fld fname p))) d2"
proof -
  obtain r1 p1 where a1: "readUInt32LE p None = (r1, p1)" by fastforce
  from readUInt32LE_same [OF assms] a1
  have b1: "readUInt32LE (on_buffer d2 p) None = (r1, on_buffer d2 p1)"
    and s1: "same_from (cursor p1) (data p1) d2" by simp_all
  obtain r2 p2 where a2: "readUInt16LE p1 None = (r2, p2)" by fastforce
  from readUInt16LE_same [OF s1] a2
  have b2: "readUInt16LE (on_buffer d2 p1) None = (r2, on_buffer d2 p2)"
    and s2: "same_from (cursor p2) (data p2) d2" by simp_all
  obtain r3 p3 where a3: "readUInt16LE p2 None = (r3, p3)" by fastforce
  from readUInt16LE_same [OF s2] a3
  have b3: "readUInt16LE (on_buffer d2 p2) None = (r3, on_buffer d2 p3)"
    and s3: "same_from (cursor p3) (data p3) d2" by simp_all
  obtain r4 p4 where a4: "readUInt32LE p3 None = (r4, p4)" by fastforce
  from readUInt32LE_same [OF s3] a4
  have b4: "readUInt32LE (on_buffer d2 p3) None = (r4, on_buffer d2 p4)"
    and s4: "same_from (cursor p4) (data p4) d2" by simp_all
  obtain r5 p5 where a5: "readUInt32LE p4 None = (r5, p5)" by fastforce
  from readUInt32LE_same [OF s4] a5
  have b5: "readUInt32LE (on_buffer d2 p4) None = (r5, on_buffer d2 p5)"
    and s5: "same_from (cursor p5) (data p5) d2" by simp_all
  obtain r6 p6 where a6: "readUInt16LE p5 None = (r6, p6)" by fastforce
  from readUInt16LE_same [OF s5] a6
  have b6: "readUInt16LE (on_buffer d2 p5) None = (r6, on_buffer d2 p6)"
    and s6: "same_from (cursor p6) (data p6) d2" by simp_all
  have b7: "readBytes (on_buffer d2 p6) n = (fst (readBytes p6 n), on_buffer d2 (snd (readBytes p6 n)))"
    and s7: "same_from (cursor (snd (readBytes p6 n))) (data (snd (readBytes p6 n))) d2"
    if "r2 = Inr n" for n
    using readBytes_same [OF s6, of n] readUInt16LE_nonneg [of p1 None n p2] a2 that by simp_all
  have c: "same_from (cursor q) (data q) d2" if "q = p1 \<or> q = p2 \<or> q = p3 \<or> q = p4 \<or> q = p5 \<or> q = p6" for q
    using that s1 s2 s3 s4 s5 s6 by auto
  show ?thesis
  proof (cases "\<exists>pb. r2 = Inr pb \<and> pb \<noteq> 0 \<and> \<not> isl r1 \<and> \<not> isl r3 \<and> \<not> isl r4 \<and> \<not> isl r5 \<and> r6 = Inr 0xffff")
    case True
    then obtain pb where pb: "r2 = Inr pb" "pb \<noteq> 0" by auto
    from True obtain v1 v3 v4 v5 where v: "r1 = Inr v1" "r3 = Inr v3" "r4 = Inr v4" "r5 = Inr v5" "r6 = Inr 0xffff"
      by (cases r1; cases r3; cases r4; cases r5) auto
    obtain rb pb' where a7: "readBytes p6 pb = (rb, pb')" by fastforce
    with b7 [OF pb(1)] s7 [OF pb(1)]
    have b7': "readBytes (on_buffer d2 p6) pb = (rb, on_buffer d2 pb')"
      and s7': "same_from (cursor pb') (data pb') d2" by simp_all
    show ?thesis
      using a1 b1 a2 b2 a3 b3 a4 b4 a5 b5 a6 b6 a7 b7' s7' s6 pb v
      by (cases rb) (simp_all add: read_entry_def Let_def)
  next
    case False
    then show ?thesis
      using a1 b1 a2 b2 a3 b3 a4 b4 a5 b5 a6 b6 c
      by (cases r1; cases r2; cases r3; cases r4; cases r5; cases r6)
        (auto simp add: read_entry_def Let_def)
  qed
qed

lemma loops_same:
  "same_from (cursor p) (data p) d2 \<Longrightarrow>
     extension_loop (on_buffer d2 p) es
       = map_sum id (map_prod (on_buffer d2) id) (extension_loop p es)"
  "same_from (cursor p) (data p) d2 \<Longrightarrow>
     folder_loop ext (on_buffer d2 p) es
       = map_sum id (map_prod (on_buffer d2) id) (folder_loop ext p es)"
  "same_from (cursor p) (data p) d2 \<Longrightarrow>
     fileName_loop ext fld (on_buffer d2 p) es
       = map_sum id (map_prod (on_buffer d2) id) (fileName_loop ext fld p es)"
proof (induction p es and ext p es and ext fld p es
    rule: extension_loop_folder_loop_fileName_loop.induct)
  case (1 p es)
  obtain s p' where r: "readString p None = (s, p')" by fastforce
  from readString_same [OF 1(2)] r
  have r2: "readString (on_buffer d2 p) None = (s, on_buffer d2 p')"
    and sf: "same_from (cursor p') (data p') d2" by simp_all
  show ?case
  proof (cases "s = []")
    case True
    then show ?thesis
      by (simp add: extension_loop.simps [of p] extension_loop.simps [of "on_buffer d2 p"] r r2)
  next
    case False
    with 1(1) [OF r [symmetric] False sf] show ?thesis
      by (simp add: extension_loop.simps [of p] extension_loop.simps [of "on_buffer d2 p"] r r2)
  qed
next
  case (2 ext p es)
  obtain s p' where r: "readString p None = (s, p')" by fastforce
  from readString_same [OF 2(3)] r
  have r2: "readString (on_buffer d2 p) None = (s, on_buffer d2 p')"
    and sf: "same_from (cursor p') (data p') d2" by simp_all
  show ?case
  proof (cases "s = []")
    case True
    with 2(1) [OF r [symmetric] True sf] show ?thesis
      by (simp add: folder_loop.simps [of ext p] folder_loop.simps [of ext "on_buffer d2 p"] r r2)
  next
    case False
    with 2(2) [OF r [symmetric] False sf] show ?thesis
      by (simp add: folder_loop.simps [of ext p] folder_loop.simps [of ext "on_buffer d2 p"] r r2)
  qed
next
  case (3 ext fld p es)
  obtain s p' where r: "readString p None = (s, p')" by fastforce
  from readString_same [OF 3(3)] r
  have r2: "readString (on_buffer d2 p) None = (s, on_buffer d2 p')"
    and sf: "same_from (cursor p') (data p') d2" by simp_all
  show ?case
  proof (cases "s = []")
    case True
    with 3(1) [OF r [symmetric] True sf] show ?thesis
      by (simp add: fileName_loop.simps [of ext fld p]
          fileName_loop.simps [of ext fld "on_buffer d2 p"] r r2)
  next
    case False
    obtain re p'' where e: "read_entry ext fld s p' = (re, p'')" by fastforce
    from read_entry_same [OF sf, of ext fld s] e
    have e2: "read_entry ext fld s (on_buffer d2 p') = (re, on_buffer d2 p'')"
      and sf': "same_from (cursor p'') (data p'') d2" by simp_all
    show ?thesis
    proof (cases re)
      case (Inl err)
      with False show ?thesis
        by (simp add: fileName_loop.simps [of ext fld p]
            fileName_loop.simps [of ext fld "on_buffer d2 p"] r r2 e e2)
    next
      case (Inr node)
      note ih = 3(2) [OF r [symmetric] False e [symmetric] Inr sf']
      from False Inr show ?thesis
        by (simp add: fileName_loop.simps [of ext fld p]
            fileName_loop.simps [of ext fld "on_buffer d2 p"] r r2 e e2 ih
            del: fun_upd_apply)
    qed
  qed
qed


lemma read_header_v2_same:
  assumes "same_from (cursor p) (data p) d2"
  shows "read_header_v2 (on_buffer d2 p)
           = (fst (read_header_v2 p), on_buffer d2 (snd (read_header_v2 p)))
         \<and> same_from (cursor (snd (read_header_v2 p))) (data (snd (read_header_v2 p))) d2"
proof -
  obtain r1 p1 where a1: "readUInt32LE p None = (r1, p1)" by fastforce
  from readUInt32LE_same [OF assms] a1
  have b1: "readUInt32LE (on_buffer d2 p) None = (r1, on_buffer d2 p1)"
    and s1: "same_from (cursor p1) (data p1) d2" by simp_all
  obtain r2 p2 where a2: "readUInt32LE p1 None = (r2, p2)" by fastforce
  from readUInt32LE_same [OF s1] a2
  have b2: "readUInt32LE (on_buffer d2 p1) None = (r2, on_buffer d2 p2)"
    and s2: "same_from (cursor p2) (data p2) d2" by simp_all
  obtain r3 p3 where a3: "readUInt32LE p2 None = (r3, p3)" by fastforce
  from readUInt32LE_same [OF s2] a3
  have b3: "readUInt32LE (on_buffer d2 p2) None = (r3, on_buffer d2 p3)"
    and s3: "same_from (cursor p3) (data p3) d2" by simp_all
  obtain r4 p4 where a4: "readUInt32LE p3 None = (r4, p4)" by fastforce
  from readUInt32LE_same [OF s3] a4
  have b4: "readUInt32LE (on_buffer d2 p3) None = (r4, on_buffer d2 p4)"
    and s4: "same_from (cursor p4) (data p4) d2" by simp_all
  show ?thesis
    using a1 b1 a2 b2 a3 b3 a4 b4 s1 s2 s3 s4
    by (cases r1; cases r2; cases r3; cases r4) (auto simp add: read_header_v2_def)
qed

lemma load_tree_same:
  assumes "same_from (cursor p) (data p) d2"
  shows "without_data (load_tree file b2 off2 (on_buffer d2 p))
           = without_data (load_tree file b1 off1 p)"
  using loops_same(1) [OF assms, of "entries file"]
  by (cases "extension_loop p (entries file)") (auto simp: load_tree_def without_data_def)

lemma header_words_same:
  assumes "length d1 = length d2" "take 8 d1 = take 8 d2"
  shows "Buffer_readUInt32LE d2 0 = Buffer_readUInt32LE d1 0"
    and "Buffer_readUInt32LE d2 4 = Buffer_readUInt32LE d1 4"
proof -
  have n: "d1 ! i = d2 ! i" if "i < 8" for i
    using that nth_take [of i 8 d1] nth_take [of i 8 d2] assms(2) by simp
  show "Buffer_readUInt32LE d2 0 = Buffer_readUInt32LE d1 0"
    using assms(1) n [of 0] n [of 1] n [of 2] n [of 3]
    by (simp add: Buffer_readUInt32LE_def)
  show "Buffer_readUInt32LE d2 4 = Buffer_readUInt32LE d1 4"
    using assms(1) n [of 4] n [of 5] n [of 6] n [of 7]
    by (simp add: Buffer_readUInt32LE_def)
qed

lemma fromFile_same:
  assumes "length d1 = length d2" "take 8 d1 = take 8 d2" "drop 12 d1 = drop 12 d2"
  shows "without_data (fromFile pth d2) = without_data (fromFile pth d1)"
proof (cases "12 \<le> length d1")
  case False
  with assms(1) have "Buffer_readUInt32LE d1 8 = Inl OutOfBounds"
    "Buffer_readUInt32LE d2 8 = Inl OutOfBounds"
    by (simp_all add: Buffer_readUInt32LE_def)
  then show ?thesis
    using header_words_same [OF assms(1,2)]
    by (simp add: fromFile_def readUInt32LE_def Let_def split: sum.splits)
next
  case True
  let ?p = "\<lparr>data = d1, cursor = 12\<rparr>"
  have q: "\<lparr>data = d2, cursor = 12\<rparr> = on_buffer d2 ?p"
    by (simp add: on_buffer_def)
  have sf: "same_from (cursor ?p) (data ?p) d2"
    using assms by (simp add: same_from_def)
  from True assms(1) obtain t1 t2 where t: "Buffer_readUInt32LE d1 8 = Inr t1"
    "Buffer_readUInt32LE d2 8 = Inr t2"
    by (simp add: Buffer_readUInt32LE_def)
  obtain rh ph where h: "read_header_v2 ?p = (rh, ph)" by fastforce
  with read_header_v2_same [OF sf]
  have h2: "read_header_v2 (on_buffer d2 ?p) = (rh, on_buffer d2 ph)"
    and sh: "same_from (cursor ph) (data ph) d2" by simp_all
  show ?thesis
    using header_words_same [OF assms(1,2)] t h h2
      load_tree_same [OF sf] load_tree_same [OF sh]
    by (cases rh) (auto simp add: fromFile_def readUInt32LE_def Let_def q on_buffer_sel split: sum.splits)
qed


lemma Buffer_subarray_to_end:
  "0 \<le> off \<Longrightarrow> Buffer_subarray d off (int (length d)) = drop (nat off) d"
  by (cases "nat off \<le> length d") (auto simp: Buffer_subarray_def clamp_index_def min_def)

lemma Buffer_readUInt32LE_nonneg: "Buffer_readUInt32LE d off = Inr v \<Longrightarrow> 0 \<le> v"
  by (auto simp: Buffer_readUInt32LE_def split: if_splits)

lemma load_tree_Inr:
  "load_tree file bytes off p = Inr f \<Longrightarrow>
     version f = version file \<and> VPKFile.data f = Buffer_subarray bytes off (int (length bytes))"
  by (auto simp: load_tree_def split: sum.splits)

lemma fromFile_data:
  assumes "fromFile pth d = Inr f" "Buffer_readUInt32LE d 8 = Inr ts"
  shows "VPKFile.data f
    = drop (nat ((if version f = 2 then HEADER_SIZE_V2 else HEADER_SIZE_V1) + ts)) d"
proof -
  from assms(2) have ts: "0 \<le> ts" by (rule Buffer_readUInt32LE_nonneg)
  have h: "0 \<le> HEADER_SIZE_V1 + ts" "0 \<le> HEADER_SIZE_V2 + ts"
    using ts by (simp_all add: HEADER_SIZE_V1_def HEADER_SIZE_V2_def)
  from assms show ?thesis
    by (auto simp add: fromFile_def readUInt32LE_def Let_def Buffer_subarray_to_end [OF h(1)]
        Buffer_subarray_to_end [OF h(2)]
        split: sum.splits if_splits prod.splits dest!: load_tree_Inr)
qed

lemma without_data_entries: "map_sum id entries (without_data r) = map_sum id entries r"
  by (cases r) (simp_all add: without_data_def)

section \<open>The calls of the tree loops\<close>






section \<open>Evaluating the scenarios\<close>

text \<open>
  The buffers of the scenarios stay folded in the parser state; only an index or a suffix of
  them is ever unfolded.
\<close>

lemma empty_dir_length: "length empty_dir = 13"
  by (simp add: empty_dir_def)

lemma empty_dir_nth:
  "empty_dir ! n = [0x34, 0x12, 0xAA, 0x55, 0x01, 0, 0, 0, 0, 0, 0, 0, 0x00] ! n"
  by (simp add: empty_dir_def)

lemma empty_dir_drop:
  "drop n empty_dir = drop n [0x34, 0x12, 0xAA, 0x55, 0x01, 0, 0, 0, 0, 0, 0, 0, 0x00]"
  by (simp add: empty_dir_def)

lemma sample_dir_length: "length sample_dir = 87"
  by (simp add: sample_dir_def)

lemma sample_dir_nth: "sample_dir ! n =
     [0x34, 0x12, 0xAA, 0x55, 1, 0, 0, 0, 0x47, 0, 0, 0,
      0x74, 0x78, 0x74, 0, 0x61, 0,
      0x66, 0, 0, 0, 0, 0, 0, 0, 0xFF, 0x7F, 1, 0, 0, 0, 2, 0, 0, 0, 0xFF, 0xFF,
      0x67, 0, 0, 0, 0, 0, 0, 0, 3, 0, 1, 0, 0, 0, 2, 0, 0, 0, 0xFF, 0xFF,
      0x68, 0, 0, 0, 0, 0, 2, 0, 0xFF, 0x7F, 0, 0, 0, 0, 0, 0, 0, 0, 0xFF, 0xFF, 7, 8,
      0, 0, 0,
      10, 20, 30, 40] ! n"
  by (simp add: sample_dir_def)

lemma sample_dir_drop: "drop n sample_dir = drop n
     [0x34, 0x12, 0xAA, 0x55, 1, 0, 0, 0, 0x47, 0, 0, 0,
      0x74, 0x78, 0x74, 0, 0x61, 0,
      0x66, 0, 0, 0, 0, 0, 0, 0, 0xFF, 0x7F, 1, 0, 0, 0, 2, 0, 0, 0, 0xFF, 0xFF,
      0x67, 0, 0, 0, 0, 0, 0, 0, 3, 0, 1, 0, 0, 0, 2, 0, 0, 0, 0xFF, 0xFF,
      0x68, 0, 0, 0, 0, 0, 2, 0, 0xFF, 0x7F, 0, 0, 0, 0, 0, 0, 0, 0, 0xFF, 0xFF, 7, 8,
      0, 0, 0,
      10, 20, 30, 40]"
  by (simp add: sample_dir_def)

lemmas eval_simps = readString_span scanned_span_def readUInt32LE_def readUInt16LE_def
  readBytes_def Buffer_readUInt32LE_def Buffer_readUInt16LE_def Buffer_subarray_def
  clamp_index_def Let_def ascii_char_def char_of_def

lemmas load_simps = fromFile_def load_tree_def read_header_v2_def SIGNATURE_def
  HEADER_SIZE_V1_def HEADER_SIZE_V2_def read_entry_def tree_simps

lemmas readFile_simps = readFile_def normalize_path_def Buffer_alloc_def Buffer_copy_def
  write_bytes_def host_open_def host_read_def host_close_def Let_def

lemma empty_dir_load:
  "fromFile pth empty_dir =
     Inr \<lparr>version = 1, fileDataSectionSize = None, archiveMD5SectionSize = None,
          otherMD5SectionSize = None, signatureSectionSize = None, VPKFile.path = pth,
          entries = Map.empty, VPKFile.data = [0x00], fdCache = []\<rparr>"
  by (simp add: load_simps eval_simps empty_dir_length empty_dir_nth empty_dir_drop)

lemma empty_dir_sized_load:
  "fromFile pth (empty_dir[8 := 1]) =
     Inr \<lparr>version = 1, fileDataSectionSize = None, archiveMD5SectionSize = None,
          otherMD5SectionSize = None, signatureSectionSize = None, VPKFile.path = pth,
          entries = Map.empty, VPKFile.data = [], fdCache = []\<rparr>"
  by (simp add: load_simps eval_simps empty_dir_def)

lemmas sample_defs = sample_file_def sample_entries_def sample_f_def sample_g_def sample_h_def
  sample_host_def

lemmas sample_dir_simps = sample_dir_length sample_dir_nth sample_dir_drop

lemma sample_load: "fromFile ''pak_dir.vpk'' sample_dir = Inr sample_file"
  by (simp add: load_simps eval_simps sample_dir_simps sample_defs)

lemma sample_archive_path: "archive_path ''pak_dir.vpk'' 3 = ''pak_003.vpk''"
  by code_simp

section \<open>Claims about BinaryParser\<close>

text \<open>
  Claim C6. For every buffer and cursor position, the cursor-advancing string read returns the
  scanned span (the bytes up to the first zero byte or the end of the buffer) decoded as ASCII,
  which is the empty string exactly when the byte at the cursor is zero or the cursor is not
  inside the buffer, and it sets the cursor one past the end of the scan, whether the scan ended
  at a zero byte or at the end of the buffer. So a scan from inside the buffer that finds no
  zero byte leaves the cursor at the buffer length plus one.
\<close>

theorem readString_advancing:
  "readString p None =
     (map ascii_char (scanned_span (data p) (cursor p)),
      p\<lparr>cursor := cursor p + int (length (scanned_span (data p) (cursor p))) + 1\<rparr>)
   \<and> (fst (readString p None) = [] \<longleftrightarrow> \<not> truthy (Buffer_at (data p) (cursor p)))
   \<and> (0 \<le> cursor p \<and> cursor p \<le> int (length (data p))
        \<and> 0 \<notin> set (drop (nat (cursor p)) (data p))
      \<longrightarrow> cursor (snd (readString p None)) = int (length (data p)) + 1)"
proof -
  let ?d = "data p" and ?c = "cursor p"
  let ?s = "scanned_span ?d ?c"
  have l: "?s = drop (nat ?c) ?d" if "0 \<le> ?c" "0 \<notin> set (drop (nat ?c) ?d)"
    using that by (auto simp: scanned_span_def takeWhile_eq_all_conv)
  show ?thesis using readString_span [of p] scanned_span_Nil [of ?d ?c] l by auto
qed

theorem readString_advancing_witness:
  "readString \<lparr>data = [0x61, 0x62], cursor = 0\<rparr> None
     = (''ab'', \<lparr>data = [0x61, 0x62], cursor = 3\<rparr>)
   \<and> cursor (snd (readString \<lparr>data = [0x61, 0x62], cursor = 0\<rparr> None))
     = int (length [0x61, 0x62 :: u8]) + 1
   \<and> readString \<lparr>data = [0x61, 0, 0x62], cursor = 0\<rparr> None
     = (''a'', \<lparr>data = [0x61, 0, 0x62], cursor = 2\<rparr>)
   \<and> readString \<lparr>data = [0x61, 0, 0x62], cursor = 1\<rparr> None
     = ('''', \<lparr>data = [0x61, 0, 0x62], cursor = 2\<rparr>)"
  using readString_advancing [of "\<lparr>data = [0x61, 0x62], cursor = 0\<rparr>"]
    readString_advancing [of "\<lparr>data = [0x61, 0, 0x62], cursor = 0\<rparr>"]
    readString_advancing [of "\<lparr>data = [0x61, 0, 0x62], cursor = 1\<rparr>"]
  by (simp add: scanned_span_def ascii_char_def char_of_def)

text \<open>
  Claim C7 (as amended). For every buffer of length \<open>L\<close> and every integer offset, an absolute
  seek succeeds, returning the offset as the new cursor, exactly when \<open>0 < offset \<le> L\<close>, and
  fails with \<open>InvalidOffset\<close>, the cursor unchanged, otherwise; a relative seek succeeds exactly
  when \<open>0 < cursor + offset \<le> L\<close>, setting the cursor to that sum. In particular offset 0 and
  offset \<open>L + 1\<close> always fail, and offset \<open>L\<close> succeeds on every non-empty buffer.
\<close>

theorem seek_bounds:
  "seek p (Some off) Absolute =
     (if 0 < off \<and> off \<le> int (length (data p)) then (Inr off, p\<lparr>cursor := off\<rparr>)
      else (Inl InvalidOffset, p))
   \<and> seek p (Some off) Relative =
     (if 0 < cursor p + off \<and> cursor p + off \<le> int (length (data p))
      then (Inr (cursor p + off), p\<lparr>cursor := cursor p + off\<rparr>)
      else (Inl InvalidOffset, p))
   \<and> seek p (Some 0) Absolute = (Inl InvalidOffset, p)
   \<and> seek p (Some (int (length (data p)) + 1)) Absolute = (Inl InvalidOffset, p)
   \<and> (data p \<noteq> [] \<longrightarrow>
        seek p (Some (int (length (data p)))) Absolute
          = (Inr (int (length (data p))), p\<lparr>cursor := int (length (data p))\<rparr>))"
  by (simp add: seek_def Let_def)

theorem seek_bounds_witness:
  "seek \<lparr>data = [7, 8, 9], cursor = 1\<rparr> (Some 3) Absolute = (Inr 3, \<lparr>data = [7, 8, 9], cursor = 3\<rparr>)
   \<and> seek \<lparr>data = [7, 8, 9], cursor = 1\<rparr> (Some 2) Relative = (Inr 3, \<lparr>data = [7, 8, 9], cursor = 3\<rparr>)
   \<and> seek \<lparr>data = [7, 8, 9], cursor = 1\<rparr> (Some 0) Absolute
       = (Inl InvalidOffset, \<lparr>data = [7, 8, 9], cursor = 1\<rparr>)
   \<and> seek \<lparr>data = [7, 8, 9], cursor = 1\<rparr> (Some 4) Absolute
       = (Inl InvalidOffset, \<lparr>data = [7, 8, 9], cursor = 1\<rparr>)"
  using seek_bounds [of "\<lparr>data = [7, 8, 9], cursor = 1\<rparr>" 3]
    seek_bounds [of "\<lparr>data = [7, 8, 9], cursor = 1\<rparr>" 2]
  by simp

text \<open>
  The claim as stated fails on the empty buffer: there the offset \<open>L\<close> is 0, and seeking to it
  is rejected.
\<close>

theorem seek_length_counterexample:
  "seek \<lparr>data = [], cursor = 0\<rparr> (Some (int (length (data \<lparr>data = [], cursor = 0\<rparr>)))) Absolute
     = (Inl InvalidOffset, \<lparr>data = [], cursor = 0\<rparr>)"
  by (simp add: seek_def)

subsection \<open>The cursor over sequences of operations\<close>









section \<open>Claims about VPKFile\<close>

text \<open>
  Claim C5 (as amended). Parsing the 13-byte directory buffer
  \<open>[0x34,0x12,0xAA,0x55, 0x01,0,0,0, 0,0,0,0, 0x00]\<close> succeeds and gives a version 1
  directory with an empty entry table, and a residual data region of one byte: the region
  starts at \<open>headerSize + treeSize = 12\<close>, where the zero byte that ends the extension level
  stands. With the tree size 1 in the header, which counts that byte, the region is empty.
\<close>

theorem empty_directory_parse:
  "fromFile pth empty_dir =
     Inr \<lparr>version = 1, fileDataSectionSize = None, archiveMD5SectionSize = None,
          otherMD5SectionSize = None, signatureSectionSize = None, VPKFile.path = pth,
          entries = Map.empty, VPKFile.data = [0x00], fdCache = []\<rparr>
   \<and> fromFile pth (empty_dir[8 := 1]) =
     Inr \<lparr>version = 1, fileDataSectionSize = None, archiveMD5SectionSize = None,
          otherMD5SectionSize = None, signatureSectionSize = None, VPKFile.path = pth,
          entries = Map.empty, VPKFile.data = [], fdCache = []\<rparr>"
  using empty_dir_load [of pth] empty_dir_sized_load [of pth] by (rule conjI)

text \<open>The claim as stated fails: the residual data region of the parsed directory is not empty.\<close>

theorem empty_directory_residual_counterexample:
  "(case fromFile ''pak_dir.vpk'' empty_dir of
      Inl e \<Rightarrow> False
    | Inr file \<Rightarrow> entries file = Map.empty \<and> VPKFile.data file = [0x00] \<and> VPKFile.data file \<noteq> [])"
  by (simp add: empty_dir_load)



text \<open>
  Claim C9. Two directory buffers of the same length whose bytes are the same outside the
  four bytes of the tree size (offsets 8 to 11) load to the same error or to directories that
  differ at most in the residual data; in particular the entry tables are the same. The
  residual data of a loaded directory is the buffer from \<open>headerSize + treeSize\<close> on.
\<close>

theorem treeSize_independence:
  "(length d1 = length d2 \<and> take 8 d1 = take 8 d2 \<and> drop 12 d1 = drop 12 d2 \<longrightarrow>
      without_data (fromFile pth d1) = without_data (fromFile pth d2)
      \<and> map_sum id entries (fromFile pth d1) = map_sum id entries (fromFile pth d2))
   \<and> (fromFile pth d1 = Inr file \<and> Buffer_readUInt32LE d1 8 = Inr treeSize \<longrightarrow>
        VPKFile.data file
          = drop (nat ((if version file = 2 then HEADER_SIZE_V2 else HEADER_SIZE_V1) + treeSize)) d1)"
proof -
  have "without_data (fromFile pth d1) = without_data (fromFile pth d2)"
    if "length d1 = length d2" "take 8 d1 = take 8 d2" "drop 12 d1 = drop 12 d2"
    using fromFile_same [OF that, of pth] by simp
  moreover have "map_sum id entries (fromFile pth d1) = map_sum id entries (fromFile pth d2)"
    if "without_data (fromFile pth d1) = without_data (fromFile pth d2)"
    using without_data_entries [of "fromFile pth d1"] without_data_entries [of "fromFile pth d2"] that
    by simp
  ultimately show ?thesis using fromFile_data [of pth d1 "file" treeSize] by blast
qed

theorem treeSize_independence_witness:
  "length sample_dir = length (sample_dir[8 := 0x48])
   \<and> take 8 sample_dir = take 8 (sample_dir[8 := 0x48])
   \<and> drop 12 sample_dir = drop 12 (sample_dir[8 := 0x48])
   \<and> map_sum id entries (fromFile ''pak_dir.vpk'' (sample_dir[8 := 0x48])) = Inr sample_entries
   \<and> Buffer_readUInt32LE sample_dir 8 = Inr 0x47
   \<and> VPKFile.data sample_file = drop (nat (HEADER_SIZE_V1 + 0x47)) sample_dir"
proof -
  have h: "length sample_dir = length (sample_dir[8 := 0x48])
      \<and> take 8 sample_dir = take 8 (sample_dir[8 := 0x48])
      \<and> drop 12 sample_dir = drop 12 (sample_dir[8 := 0x48])"
    by (simp add: sample_dir_def)
  have t: "Buffer_readUInt32LE sample_dir 8 = Inr 0x47"
    by (simp add: Buffer_readUInt32LE_def sample_dir_length sample_dir_nth)
  have e: "map_sum id entries (fromFile ''pak_dir.vpk'' sample_dir) = Inr sample_entries"
    and v: "version sample_file = 1"
    by (simp_all add: sample_load sample_file_def)
  note ti = treeSize_independence [of sample_dir "sample_dir[8 := 0x48]" "''pak_dir.vpk''"
      sample_file "0x47"]
  from ti [THEN conjunct1, THEN mp, OF h]
  have "map_sum id entries (fromFile ''pak_dir.vpk'' sample_dir)
      = map_sum id entries (fromFile ''pak_dir.vpk'' (sample_dir[8 := 0x48]))"
    by (rule conjunct2)
  from this [symmetric] e
  have e2: "map_sum id entries (fromFile ''pak_dir.vpk'' (sample_dir[8 := 0x48])) = Inr sample_entries"
    by (rule trans)
  from ti [THEN conjunct2, THEN mp, OF conjI [OF sample_load t]]
  have d: "VPKFile.data sample_file = drop (nat (HEADER_SIZE_V1 + 0x47)) sample_dir"
    by (simp add: v)
  from h e2 t d show ?thesis by blast
qed

text \<open>
  Claim C1 (the code departs from it). The entry \<open>a/f.txt\<close> of the sample directory has
  archive index \<open>0x7FFF\<close>, offset 1 and length 2, and the residual data is \<open>[10, 20, 30, 40]\<close>.
  The claim asks for the bytes \<open>[20, 30]\<close>; \<open>readFile\<close> returns \<open>[20, 0]\<close>, because it passes
  the length where \<open>copy\<close> expects the end offset in the source.
\<close>

theorem residual_copy_sample:
  "fromFile ''pak_dir.vpk'' sample_dir = Inr sample_file
   \<and> readFile crc32 sample_file host ''a/f.txt'' validate = (Inr [20, 0], sample_file, host)
   \<and> take 2 (drop 1 (VPKFile.data sample_file)) = [20, 30]"
  using sample_load by (simp add: readFile_simps sample_defs)

text \<open>
  Claim C4 (the code departs from it). With \<open>validate\<close> set, \<open>readFile\<close> returns the preload-only
  entry \<open>a/h.txt\<close> and the residual entry \<open>a/f.txt\<close> of the sample directory whatever the
  checksum function is, although the stored checksum of both is 0: the comparison stands inside
  the branch of the external archives only. There, for \<open>a/g.txt\<close>, it is made.
\<close>

theorem validate_skipped_sample:
  "readFile crc32 sample_file host ''a/h.txt'' True = (Inr [7, 8], sample_file, host)
   \<and> readFile crc32 sample_file host ''a/f.txt'' True = (Inr [20, 0], sample_file, host)
   \<and> fst (readFile crc32 sample_file sample_host ''a/g.txt'' True)
       = (if crc32 [2, 3] \<noteq> 0 then Inl ValidationFailed else Inr [2, 3])"
  using sample_archive_path
  by (simp add: readFile_simps sample_defs)

text \<open>
  Claim C2 (the code departs from it). Two reads of \<open>a/g.txt\<close>, whose content is in the
  external archive 3, open two descriptors on \<open>pak_003.vpk\<close>: the second read does not look
  the cache up, opens the archive again and overwrites the cached descriptor 0 by 1, so that
  descriptor 0 is open and no longer in the cache.
\<close>

theorem handle_reopened_sample:
  "read_twice crc32 sample_file sample_host ''a/g.txt''
     = (Inr [2, 3], sample_file\<lparr>fdCache := [(3, 1)]\<rparr>,
        sample_host\<lparr>fds := [(0, ''pak_003.vpk''), (1, ''pak_003.vpk'')], next_fd := 2\<rparr>)"
  using sample_archive_path
  by (simp add: read_twice_def readFile_simps sample_defs)

subsection \<open>Closing the sub-archives\<close>

lemma close_with_index: "close h fd [JsNumber i, JsArray arr] = (Inl InvalidCallback, h)"
  by (simp add: close_def fs_close_def)

lemma map_close_rejects:
  "map_close h arr i l = (map (\<lambda>fd. (fd, Inl InvalidCallback)) l, h)"
  by (induction l arbitrary: i) (simp_all add: close_with_index)

lemma first_failure_rejected:
  "first_failure (map (\<lambda>fd. (fd, Inl e)) l) = (if l = [] then Inr () else Inl e)"
  by (cases l) simp_all

text \<open>
  Claim C10 (the code departs from it). After a call of \<open>closeSubArchives\<close> the cache is
  empty, as the claim says. But no descriptor is closed: every call made by \<open>map\<close> is
  \<open>close(fd, index, array)\<close>, \<open>fs.close\<close> takes the index for its callback and throws, so the
  host is left as it was and the call is rejected whenever the cache held a descriptor. After
  a read of \<open>a/g.txt\<close> of the sample directory, descriptor 0 is cached and open, and it is
  still open after \<open>closeSubArchives\<close>; \<open>close\<close> called with the descriptor alone closes it.
\<close>

theorem closeSubArchives_closes_nothing:
  "closeSubArchives file host
     = (if fdCache file = [] then Inr () else Inl InvalidCallback, file\<lparr>fdCache := []\<rparr>, host)
   \<and> readFile crc32 sample_file sample_host ''a/g.txt'' False
     = (Inr [2, 3], sample_file\<lparr>fdCache := [(3, 0)]\<rparr>,
        sample_host\<lparr>fds := [(0, ''pak_003.vpk'')], next_fd := 1\<rparr>)
   \<and> closeSubArchives (sample_file\<lparr>fdCache := [(3, 0)]\<rparr>)
        (sample_host\<lparr>fds := [(0, ''pak_003.vpk'')], next_fd := 1\<rparr>)
     = (Inl InvalidCallback, sample_file,
        sample_host\<lparr>fds := [(0, ''pak_003.vpk'')], next_fd := 1\<rparr>)
   \<and> close (sample_host\<lparr>fds := [(0, ''pak_003.vpk'')], next_fd := 1\<rparr>) 0 []
     = (Inr (), sample_host\<lparr>next_fd := 1\<rparr>)"
proof -
  have g: "closeSubArchives f h
      = (if fdCache f = [] then Inr () else Inl InvalidCallback, f\<lparr>fdCache := []\<rparr>, h)" for f h
    by (simp add: closeSubArchives_def map_close_rejects first_failure_rejected)
  have r: "readFile crc32 sample_file sample_host ''a/g.txt'' False
      = (Inr [2, 3], sample_file\<lparr>fdCache := [(3, 0)]\<rparr>,
         sample_host\<lparr>fds := [(0, ''pak_003.vpk'')], next_fd := 1\<rparr>)"
    using sample_archive_path by (simp add: readFile_simps sample_defs)
  have c: "close (sample_host\<lparr>fds := [(0, ''pak_003.vpk'')], next_fd := 1\<rparr>) 0 []
      = (Inr (), sample_host\<lparr>next_fd := 1\<rparr>)"
    by (simp add: close_def fs_close_def host_close_def sample_host_def)
  have s: "closeSubArchives (sample_file\<lparr>fdCache := [(3, 0)]\<rparr>)
        (sample_host\<lparr>fds := [(0, ''pak_003.vpk'')], next_fd := 1\<rparr>)
      = (Inl InvalidCallback, sample_file,
         sample_host\<lparr>fds := [(0, ''pak_003.vpk'')], next_fd := 1\<rparr>)"
    by (simp add: g sample_file_def)
  show ?thesis by (intro conjI g r s c)
qed

end
